theory Spec2Isabelle
  imports Complex_Main "HOL-Library.AList" "HOL-Library.Multiset"
begin

section \<open>Python values used by the converter\<close>

text \<open>
  A Python \<open>bytes\<close> object is a list of 8-bit characters; a Python \<open>str\<close> is a list of
  Unicode code points. \<open>py\<close> turns an ASCII literal into a \<open>str\<close>.
\<close>

type_synonym pybytes = "char list"
type_synonym pystr = "nat list"

definition py :: "string \<Rightarrow> pystr" where
  "py s = map of_char s"

subsection \<open>\<open>bytes.decode("utf-8")\<close>\<close>

text \<open>
  Strict UTF-8 decoding: a byte below 0x80 is its own code point; lead bytes C2..DF,
  E0..EF and F0..F4 take one, two and three continuation bytes, where the first
  continuation byte is narrowed after E0 (no overlong form), ED (no surrogate), F0 (no
  overlong form) and F4 (nothing above U+10FFFF). Every other byte sequence raises
  UnicodeDecodeError, which is the value \<open>None\<close>.
\<close>

definition cont :: "nat \<Rightarrow> bool" where
  "cont b = (128 \<le> b \<and> b \<le> 191)"

definition second_ok :: "nat \<Rightarrow> nat \<Rightarrow> bool" where
  "second_ok b c =
     (if b = 224 then 160 \<le> c \<and> c \<le> 191
      else if b = 237 then 128 \<le> c \<and> c \<le> 159
      else if b = 240 then 144 \<le> c \<and> c \<le> 191
      else if b = 244 then 128 \<le> c \<and> c \<le> 143
      else cont c)"

fun utf8 :: "nat list \<Rightarrow> pystr option" where
  "utf8 [] = Some []"
| "utf8 (b # bs) =
     (if b < 128 then map_option (Cons b) (utf8 bs)
      else if 194 \<le> b \<and> b \<le> 223 then
        (case bs of
           c1 # r \<Rightarrow>
             if cont c1 then map_option (Cons ((b - 192) * 64 + (c1 - 128))) (utf8 r)
             else None
         | _ \<Rightarrow> None)
      else if 224 \<le> b \<and> b \<le> 239 then
        (case bs of
           c1 # c2 # r \<Rightarrow>
             if second_ok b c1 \<and> cont c2
             then map_option (Cons ((b - 224) * 4096 + (c1 - 128) * 64 + (c2 - 128))) (utf8 r)
             else None
         | _ \<Rightarrow> None)
      else if 240 \<le> b \<and> b \<le> 244 then
        (case bs of
           c1 # c2 # c3 # r \<Rightarrow>
             if second_ok b c1 \<and> cont c2 \<and> cont c3
             then map_option
                    (Cons ((b - 240) * 262144 + (c1 - 128) * 4096 + (c2 - 128) * 64 + (c3 - 128)))
                    (utf8 r)
             else None
         | _ \<Rightarrow> None)
      else None)"

definition decode_utf8 :: "pybytes \<Rightarrow> pystr option" where
  "decode_utf8 bs = utf8 (map of_char bs)"

subsection \<open>\<open>str.splitlines\<close>, \<open>str.startswith\<close>, \<open>str.split\<close>\<close>

text \<open>
  \<open>splitlines\<close> ends a line at \<open>\n\<close>, \<open>\r\<close>, \<open>\r\n\<close> (one boundary), \<open>\v\<close>,
  \<open>\f\<close>, \<open>\x1c\<close>, \<open>\x1d\<close>, \<open>\x1e\<close>, \<open>\x85\<close>, U+2028 and U+2029; the boundary is
  dropped, and a text that ends with a boundary has no empty last line.
\<close>

definition is_linebreak :: "nat \<Rightarrow> bool" where
  "is_linebreak c = (c \<in> set [10, 11, 12, 13, 28, 29, 30, 133, 8232, 8233])"

fun splitlines_from :: "pystr \<Rightarrow> pystr \<Rightarrow> pystr list" where
  "splitlines_from cur [] = (if cur = [] then [] else [rev cur])"
| "splitlines_from cur [c] = (if is_linebreak c then [rev cur] else [rev (c # cur)])"
| "splitlines_from cur (c # d # cs) =
     (if c = 13 \<and> d = 10 then rev cur # splitlines_from [] cs
      else if is_linebreak c then rev cur # splitlines_from [] (d # cs)
      else splitlines_from (c # cur) (d # cs))"

definition splitlines :: "pystr \<Rightarrow> pystr list" where
  "splitlines s = splitlines_from [] s"

definition startswith :: "pystr \<Rightarrow> pystr \<Rightarrow> bool" where
  "startswith s p = (take (length p) s = p)"

text \<open>\<open>s.split(sep)\<close> for a one-character separator: never empty, empty fields kept.\<close>

fun split :: "pystr \<Rightarrow> nat \<Rightarrow> pystr list" where
  "split [] sep = [[]]"
| "split (c # cs) sep =
     (if c = sep then [] # split cs sep
      else (case split cs sep of fld # flds \<Rightarrow> (c # fld) # flds | [] \<Rightarrow> [[c]]))"

text \<open>The slice \<open>xs[i:j]\<close> for \<open>0 \<le> i \<le> j\<close>: out-of-range bounds are clipped.\<close>

definition slice :: "'a list \<Rightarrow> nat \<Rightarrow> nat \<Rightarrow> 'a list" where
  "slice xs i j = take (j - i) (drop i xs)"

subsection \<open>\<open>float\<close> on decimal literals\<close>

text \<open>
  The built-in \<open>float\<close> is a parameter of the parser below, so that the general theorems
  hold whatever it accepts and returns. \<open>float_decimal\<close> reads the plain decimal literals
  only: ASCII whitespace around an optional sign, digits and an optional fraction. On
  such a literal it returns the exact value, which is what \<open>float\<close> returns when that
  value is a binary64 number; everything else is \<open>None\<close> here, also the exponents,
  underscores, \<open>inf\<close>, \<open>nan\<close> and non-ASCII digits that \<open>float\<close> accepts. It stands for
  \<open>float\<close> at concrete files whose fields are literals of the first kind.
\<close>

definition is_space :: "nat \<Rightarrow> bool" where
  "is_space c = (c = 32 \<or> (9 \<le> c \<and> c \<le> 13))"

definition is_digit :: "nat \<Rightarrow> bool" where
  "is_digit c = (48 \<le> c \<and> c \<le> 57)"

definition strip :: "pystr \<Rightarrow> pystr" where
  "strip s = rev (dropWhile is_space (rev (dropWhile is_space s)))"

definition digits_val :: "pystr \<Rightarrow> nat" where
  "digits_val ds = foldl (\<lambda>n c. 10 * n + (c - 48)) 0 ds"

definition unsigned_decimal :: "pystr \<Rightarrow> real option" where
  "unsigned_decimal s =
     (let ip = takeWhile is_digit s; r = dropWhile is_digit s in
      case r of
        [] \<Rightarrow> if ip = [] then None else Some (real (digits_val ip))
      | c # fs \<Rightarrow>
          if c = 46 \<and> list_all is_digit fs \<and> (ip \<noteq> [] \<or> fs \<noteq> [])
          then Some (real (digits_val (ip @ fs)) / 10 ^ length fs)
          else None)"

definition float_decimal :: "pystr \<Rightarrow> real option" where
  "float_decimal s =
     (case strip s of
        [] \<Rightarrow> None
      | c # r \<Rightarrow>
          if c = 45 then map_option uminus (unsigned_decimal r)
          else if c = 43 then unsigned_decimal r
          else unsigned_decimal (c # r))"

section \<open>The calibration parser \<open>parse_map\<close>\<close>

text \<open>
  The dictionary \<open>coords\<close> has the keys "minx", "maxy", "maxx" and "miny".
\<close>

datatype coord = Minx | Miny | Maxx | Maxy

type_synonym 'f coords = "coord \<rightharpoonup> 'f"

text \<open>
  \<open>x, y = map(float, fields)\<close>: the unpacking raises ValueError unless \<open>fields\<close> has
  exactly two items, and \<open>float\<close> raises on the first item it cannot read. Both items are
  converted, also the one bound to \<open>_\<close>.
\<close>

definition unpack2 :: "(pystr \<Rightarrow> 'f option) \<Rightarrow> pystr list \<Rightarrow> ('f \<times> 'f) option" where
  "unpack2 flt flds =
     (case flds of
        [x, y] \<Rightarrow>
          (case flt x of
             None \<Rightarrow> None
           | Some u \<Rightarrow> (case flt y of None \<Rightarrow> None | Some v \<Rightarrow> Some (u, v)))
      | _ \<Rightarrow> None)"

definition line_values :: "(pystr \<Rightarrow> 'f option) \<Rightarrow> pystr \<Rightarrow> ('f \<times> 'f) option" where
  "line_values flt line = unpack2 flt (slice (split line 44) 2 4)"

text \<open>
  The body of the loop over the lines: the \<open>if\<close>/\<open>elif\<close> chain on the line's prefix.
  An exception in the body leaves \<open>parse_map\<close> through its \<open>except\<close> clause, so the
  body returns \<open>None\<close> when it raises, and the loop stops at the first such line.
\<close>

definition parse_line :: "(pystr \<Rightarrow> 'f option) \<Rightarrow> 'f coords \<Rightarrow> pystr \<Rightarrow> 'f coords option" where
  "parse_line flt coords line =
     (if startswith line (py ''MMPLL, 1'') then
        (case line_values flt line of
           None \<Rightarrow> None
         | Some (u, v) \<Rightarrow> Some (coords(Minx \<mapsto> u, Maxy \<mapsto> v)))
      else if startswith line (py ''MMPLL, 2'') then
        (case line_values flt line of
           None \<Rightarrow> None
         | Some (u, v) \<Rightarrow> Some (coords(Maxx \<mapsto> u)))
      else if startswith line (py ''MMPLL, 3'') then
        (case line_values flt line of
           None \<Rightarrow> None
         | Some (u, v) \<Rightarrow> Some (coords(Miny \<mapsto> v)))
      else Some coords)"

fun parse_lines :: "(pystr \<Rightarrow> 'f option) \<Rightarrow> 'f coords \<Rightarrow> pystr list \<Rightarrow> 'f coords option" where
  "parse_lines flt coords [] = Some coords"
| "parse_lines flt coords (line # lines) =
     (case parse_line flt coords line of
        None \<Rightarrow> None
      | Some coords' \<Rightarrow> parse_lines flt coords' lines)"

text \<open>The \<open>return\<close> statement: a missing key raises KeyError.\<close>

definition bounds_of :: "'f coords \<Rightarrow> ('f \<times> 'f \<times> 'f \<times> 'f) option" where
  "bounds_of coords =
     (case coords Minx of None \<Rightarrow> None | Some x0 \<Rightarrow>
       (case coords Miny of None \<Rightarrow> None | Some y0 \<Rightarrow>
         (case coords Maxx of None \<Rightarrow> None | Some x1 \<Rightarrow>
           (case coords Maxy of None \<Rightarrow> None | Some y1 \<Rightarrow> Some (x0, y0, x1, y1)))))"

definition parse_map :: "(pystr \<Rightarrow> 'f option) \<Rightarrow> pybytes \<Rightarrow> ('f \<times> 'f \<times> 'f \<times> 'f) option" where
  "parse_map flt file_contents =
     (case decode_utf8 file_contents of
        None \<Rightarrow> None
      | Some text \<Rightarrow>
          (case parse_lines flt Map.empty (splitlines text) of
             None \<Rightarrow> None
           | Some coords \<Rightarrow> bounds_of coords))"

subsection \<open>Vocabulary for statements about the parser\<close>

text \<open>
  A line is recognized when one of the three branches of the loop body takes it. The text
  of a file has a line of a type when its decoded text has a line with that prefix. The
  values of the last line of a type are what the loop body reads from the last line
  with that prefix, in file order.
\<close>

definition recognized :: "pystr \<Rightarrow> bool" where
  "recognized line =
     (startswith line (py ''MMPLL, 1'') \<or> startswith line (py ''MMPLL, 2'') \<or>
      startswith line (py ''MMPLL, 3''))"

definition has_line :: "pystr \<Rightarrow> pybytes \<Rightarrow> bool" where
  "has_line tag file_contents =
     (case decode_utf8 file_contents of
        None \<Rightarrow> False
      | Some text \<Rightarrow> list_ex (\<lambda>line. startswith line tag) (splitlines text))"

definition well_formed :: "(pystr \<Rightarrow> 'f option) \<Rightarrow> pybytes \<Rightarrow> bool" where
  "well_formed flt file_contents =
     (case decode_utf8 file_contents of
        None \<Rightarrow> False
      | Some text \<Rightarrow>
          list_all (\<lambda>line. recognized line \<longrightarrow> line_values flt line \<noteq> None) (splitlines text))"

definition last_values ::
  "(pystr \<Rightarrow> 'f option) \<Rightarrow> pystr \<Rightarrow> pystr list \<Rightarrow> ('f \<times> 'f) option" where
  "last_values flt tag lines =
     (case filter (\<lambda>line. startswith line tag) lines of
        [] \<Rightarrow> None
      | x # xs \<Rightarrow> line_values flt (last (x # xs)))"

subsection \<open>Calibration files used as examples\<close>

definition unlines :: "string list \<Rightarrow> pybytes" where
  "unlines ls = concat (map (\<lambda>l. l @ [CHR 0x0A]) ls)"

text \<open>The scenario of the specification: five fields on each line.\<close>

definition scenario_text :: pybytes where
  "scenario_text =
     unlines [''MMPLL, 1, 1, -10.0, 20.0'', ''MMPLL, 2, 1, 30.0, 5.0'', ''MMPLL, 3, 1, 5.0, 5.0'']"

text \<open>The same corners with four fields on each line: tag, index, x, y.\<close>

definition corners_text :: pybytes where
  "corners_text = unlines [''MMPLL, 1, -10.0, 20.0'', ''MMPLL, 2, 30.0, 5.0'', ''MMPLL, 3, 5.0, 5.0'']"

text \<open>Index 1 at the lower right and indices 2 and 3 at the upper left.\<close>

definition swapped_text :: pybytes where
  "swapped_text = unlines [''MMPLL, 1, 30.0, 5.0'', ''MMPLL, 2, -10.0, 20.0'', ''MMPLL, 3, -10.0, 20.0'']"

text \<open>No line of index 3.\<close>

definition partial_text :: pybytes where
  "partial_text = unlines [''MMPLL, 1, -10.0, 20.0'', ''MMPLL, 2, 30.0, 5.0'']"

text \<open>A header line, a line of index 4 and an empty line among the three corners.\<close>

definition commented_text :: pybytes where
  "commented_text =
     unlines [''OziExplorer Map Data File'', ''MMPLL, 1, -10.0, 20.0'', ''MMPLL, 2, 30.0, 5.0'',
              ''MMPLL, 4, -10.0, 5.0'', [], ''MMPLL, 3, 5.0, 5.0'']"


section \<open>The transform \<open>from_bounds\<close>\<close>

text \<open>
  \<open>from_bounds\<close> is imported from \<open>rasterio.transform\<close> (line 3) and called at line 150 as
  \<open>from_bounds(*bounds, width=width, height=height)\<close>; the converter has no code of its own
  around the call. The library defines it as
  \<^verbatim>\<open>Affine.translation(west, north) * Affine.scale((east - west) / width, (south - north) / height)\<close>
  where \<open>Affine(a, b, c, d, e, f)\<close> maps \<open>(col, row)\<close> to
  \<open>(a * col + b * row + c, d * col + e * row + f)\<close>. Widths and heights are Python
  integers, and a division by zero raises ZeroDivisionError. The coefficients are exact
  reals here, where the program rounds to binary64: this model says when the call fails
  and which transform it returns up to rounding, and nothing is stated of it that
  depends on the last place.
\<close>

type_synonym key = string
type_synonym path = nat
type_synonym bounds = "real \<times> real \<times> real \<times> real"

datatype exc =
    KeyError key
  | ZeroDivisionError
  | FileNotFoundError path
  | NameError
  | LibraryError string

datatype affine = Affine real real real real real real

definition translation :: "real \<Rightarrow> real \<Rightarrow> affine" where
  "translation xoff yoff = Affine 1 0 xoff 0 1 yoff"

definition scale :: "real \<Rightarrow> real \<Rightarrow> affine" where
  "scale sx sy = Affine sx 0 0 0 sy 0"

fun affine_mul :: "affine \<Rightarrow> affine \<Rightarrow> affine" where
  "affine_mul (Affine sa sb sc sd se sf) (Affine oa ob oc od oe of') =
     Affine (sa * oa + sb * od) (sa * ob + sb * oe) (sa * oc + sb * of' + sc)
            (sd * oa + se * od) (sd * ob + se * oe) (sd * oc + se * of' + sf)"

definition from_bounds :: "real \<Rightarrow> real \<Rightarrow> real \<Rightarrow> real \<Rightarrow> int \<Rightarrow> int \<Rightarrow> exc + affine" where
  "from_bounds west south east north width height =
     (if width = 0 then Inl ZeroDivisionError
      else if height = 0 then Inl ZeroDivisionError
      else Inr (affine_mul (translation west north)
                  (scale ((east - west) / of_int width) ((south - north) / of_int height))))"

section \<open>The eager parse of the calibration files\<close>

text \<open>
  Lines 96 to 105: every matched key's calibration file is parsed once, and the bounds
  are stored under the key when \<open>parse_map\<close> returns a tuple (a tuple of four is truthy).
  A failure is reported on the page and stores nothing. The cache is a dictionary: an
  association list in insertion order.
\<close>

definition cache_bounds ::
  "(pystr \<Rightarrow> real option) \<Rightarrow> (key \<rightharpoonup> pybytes) \<Rightarrow> (key \<times> bounds) list \<Rightarrow> key \<Rightarrow>
   (key \<times> bounds) list" where
  "cache_bounds flt map_files cache k =
     (case map_files k of
        None \<Rightarrow> cache
      | Some file_contents \<Rightarrow>
          (case parse_map flt file_contents of
             Some b \<Rightarrow> AList.update k b cache
           | None \<Rightarrow> cache))"

definition eager_parse ::
  "(pystr \<Rightarrow> real option) \<Rightarrow> (key \<rightharpoonup> pybytes) \<Rightarrow> key list \<Rightarrow> (key \<times> bounds) list" where
  "eager_parse flt map_files keys = foldl (cache_bounds flt map_files) [] keys"

section \<open>The conversion loop\<close>

text \<open>
  What the loop reads from the session and what the libraries do is the environment:
  the selected output type, the matched keys, the bounds cache, and for each key
  the outcome of decoding its image (the array's height and width, or the exception),
  of writing the raster, of \<open>reproject_to_xyz\<close> and of \<open>writestr\<close> (the exception, if
  one is raised) and the bytes of the final raster file.
\<close>

datatype output_type = Type2 | Type3

record env =
  output_type :: output_type
  matched_keys :: "key list"
  bounds_cache :: "(key \<times> bounds) list"
  image_shape :: "key \<Rightarrow> exc + int \<times> int"
  raster_write :: "key \<Rightarrow> exc option"
  reproject_to_xyz :: "key \<Rightarrow> exc option"
  tif_bytes :: "key \<Rightarrow> pybytes"
  writestr :: "key \<Rightarrow> exc option"

text \<open>
  What the loop changes: the temporary files on disk, the entries of the archive and the
  conversion summary. The summary's failure list holds the exception where the source
  holds its message \<open>str(e)\<close>.
\<close>

record conv_state =
  tmp_files :: "path list"
  zip_entries :: "(string \<times> pybytes) list"
  success :: "key list"
  failed :: "(key \<times> exc) list"
  total_bytes :: nat

text \<open>
  \<open>NamedTemporaryFile(suffix=".tif", delete=False)\<close> creates a file under a name no file
  has, and leaves it on disk when it is closed. \<open>os.remove\<close> deletes a file, and raises
  FileNotFoundError when there is none.
\<close>

definition fresh :: "path list \<Rightarrow> path" where
  "fresh files = Suc (fold max files 0)"

definition named_temporary_file :: "conv_state \<Rightarrow> path \<times> conv_state" where
  "named_temporary_file s =
     (let name = fresh (tmp_files s) in (name, s\<lparr>tmp_files := name # tmp_files s\<rparr>))"

definition os_remove :: "path \<Rightarrow> conv_state \<Rightarrow> exc + conv_state" where
  "os_remove p s =
     (if p \<in> set (tmp_files s) then Inr (s\<lparr>tmp_files := removeAll p (tmp_files s)\<rparr>)
      else Inl (FileNotFoundError p))"

text \<open>
  Lines 145 to 162: decode the image, look the bounds up (KeyError when the key is not
  cached), build the transform, create the temporary file and write the raster into
  it. The result is the exception raised or \<open>final_tif\<close>, with the state at that point.
\<close>

definition write_base :: "env \<Rightarrow> key \<Rightarrow> conv_state \<Rightarrow> (exc + path) \<times> conv_state" where
  "write_base en k s =
     (case image_shape en k of
        Inl e \<Rightarrow> (Inl e, s)
      | Inr (height, width) \<Rightarrow>
          (case map_of (bounds_cache en) k of
             None \<Rightarrow> (Inl (KeyError k), s)
           | Some (minx, miny, maxx, maxy) \<Rightarrow>
               (case from_bounds minx miny maxx maxy width height of
                  Inl e \<Rightarrow> (Inl e, s)
                | Inr transform \<Rightarrow>
                    (case named_temporary_file s of
                       (temp_tif, s1) \<Rightarrow>
                         (case raster_write en k of
                            Some e \<Rightarrow> (Inl e, s1)
                          | None \<Rightarrow> (Inr temp_tif, s1))))))"

text \<open>
  Lines 164 to 167: for Type 3 a second temporary file is created, the raster is
  reprojected into it, and \<open>final_tif\<close> becomes its name. The result is \<open>final_tif\<close>
  and the variable \<open>temp_xyz\<close>, unbound (\<open>None\<close>) for Type 2.
\<close>

definition reproject_step ::
  "env \<Rightarrow> key \<Rightarrow> path \<Rightarrow> conv_state \<Rightarrow> (exc + path \<times> path option) \<times> conv_state" where
  "reproject_step en k final_tif s =
     (if output_type en = Type3 then
        (case named_temporary_file s of
           (temp_xyz, s1) \<Rightarrow>
             (case reproject_to_xyz en k of
                Some e \<Rightarrow> (Inl e, s1)
              | None \<Rightarrow> (Inr (temp_xyz, Some temp_xyz), s1)))
      else (Inr (final_tif, None), s))"

text \<open>
  Lines 169 to 179: read the final file, add it to the archive under
  \<open>{key}_geotiff.tif\<close>, add its size to the total, remove \<open>final_tif\<close>, for Type 3
  remove \<open>temp_xyz.name\<close> as well, and record the success.
\<close>

definition archive_name :: "key \<Rightarrow> string" where
  "archive_name k = k @ ''_geotiff.tif''"

definition archive_step ::
  "env \<Rightarrow> key \<Rightarrow> path \<Rightarrow> path option \<Rightarrow> conv_state \<Rightarrow> (exc + unit) \<times> conv_state" where
  "archive_step en k final_tif temp_xyz s =
     (if final_tif \<notin> set (tmp_files s) then (Inl (FileNotFoundError final_tif), s)
      else
        (case writestr en k of
           Some e \<Rightarrow> (Inl e, s)
         | None \<Rightarrow>
             (let data = tif_bytes en k;
                  s1 = s\<lparr>zip_entries := zip_entries s @ [(archive_name k, data)],
                         total_bytes := total_bytes s + length data\<rparr>
              in case os_remove final_tif s1 of
                   Inl e \<Rightarrow> (Inl e, s1)
                 | Inr s2 \<Rightarrow>
                     (if output_type en = Type3 then
                        (case temp_xyz of
                           None \<Rightarrow> (Inl NameError, s2)
                         | Some p \<Rightarrow>
                             (case os_remove p s2 of
                                Inl e \<Rightarrow> (Inl e, s2)
                              | Inr s3 \<Rightarrow> (Inr (), s3\<lparr>success := success s3 @ [k]\<rparr>)))
                      else (Inr (), s2\<lparr>success := success s2 @ [k]\<rparr>)))))"

text \<open>The body of the \<open>try\<close> block for one key.\<close>

definition try_pair :: "env \<Rightarrow> key \<Rightarrow> conv_state \<Rightarrow> (exc + unit) \<times> conv_state" where
  "try_pair en k s =
     (case write_base en k s of
        (Inl e, s1) \<Rightarrow> (Inl e, s1)
      | (Inr final_tif, s1) \<Rightarrow>
          (case reproject_step en k final_tif s1 of
             (Inl e, s2) \<Rightarrow> (Inl e, s2)
           | (Inr (final_tif', temp_xyz), s2) \<Rightarrow> archive_step en k final_tif' temp_xyz s2))"

text \<open>One iteration: the \<open>try\<close> block with its \<open>except Exception\<close> clause.\<close>

definition convert_pair :: "env \<Rightarrow> key \<Rightarrow> conv_state \<Rightarrow> conv_state" where
  "convert_pair en k s =
     (case try_pair en k s of
        (Inl e, s1) \<Rightarrow> s1\<lparr>failed := failed s1 @ [(k, e)]\<rparr>
      | (Inr u, s1) \<Rightarrow> s1)"

fun conversion_loop :: "env \<Rightarrow> key list \<Rightarrow> conv_state \<Rightarrow> conv_state" where
  "conversion_loop en [] s = s"
| "conversion_loop en (k # ks) s = conversion_loop en ks (convert_pair en k s)"

text \<open>
  The handler of the Convert button (lines 132 to 187). The button exists only when the
  bounds cache is not empty; the handler starts a new archive and a new summary and
  runs the loop over all matched keys.
\<close>

definition convert_to_geotiff :: "env \<Rightarrow> conv_state \<Rightarrow> conv_state" where
  "convert_to_geotiff en s =
     (if bounds_cache en = [] then s
      else conversion_loop en (matched_keys en)
             (s\<lparr>zip_entries := [], success := [], failed := [], total_bytes := 0\<rparr>))"

subsection \<open>Vocabulary for statements about the loop\<close>

text \<open>
  A pair gets as far as its temporary file when its image decodes, its bounds are cached
  and \<open>from_bounds\<close> returns. Its steps are all well when, further, neither the raster
  write nor \<open>writestr\<close> raises (Type 2 has no other step).
\<close>

definition creates_temp :: "env \<Rightarrow> key \<Rightarrow> bool" where
  "creates_temp en k =
     (case image_shape en k of
        Inl e \<Rightarrow> False
      | Inr (height, width) \<Rightarrow>
          (case map_of (bounds_cache en) k of
             None \<Rightarrow> False
           | Some (minx, miny, maxx, maxy) \<Rightarrow>
               (case from_bounds minx miny maxx maxy width height of
                  Inl e \<Rightarrow> False
                | Inr transform \<Rightarrow> True)))"

definition steps_ok :: "env \<Rightarrow> key \<Rightarrow> bool" where
  "steps_ok en k = (creates_temp en k \<and> raster_write en k = None \<and> writestr en k = None)"

text \<open>What the eager parse makes of the calibration file uploaded under a key.\<close>

definition parsed :: "(pystr \<Rightarrow> real option) \<Rightarrow> (key \<rightharpoonup> pybytes) \<Rightarrow> key \<Rightarrow> bounds option" where
  "parsed flt map_files k =
     (case map_files k of None \<Rightarrow> None | Some file_contents \<Rightarrow> parse_map flt file_contents)"

subsection \<open>Sessions used as examples\<close>

text \<open>
  Two matched keys, \<open>a\<close> and \<open>b\<close>, with the given calibration files, 100 by 50 images,
  the Type 2 output and libraries that raise nothing.
\<close>

definition session_env :: "(key \<rightharpoonup> pybytes) \<Rightarrow> env" where
  "session_env map_files =
     \<lparr>output_type = Type2,
      matched_keys = [''a'', ''b''],
      bounds_cache = eager_parse float_decimal map_files [''a'', ''b''],
      image_shape = (\<lambda>k. Inr (50, 100)),
      raster_write = (\<lambda>k. None),
      reproject_to_xyz = (\<lambda>k. None),
      tif_bytes = (\<lambda>k. ''II*''),
      writestr = (\<lambda>k. None)\<rparr>"

text \<open>The calibration file of \<open>b\<close> has no line of index 3.\<close>

definition partial_env :: env where
  "partial_env = session_env [''a'' \<mapsto> corners_text, ''b'' \<mapsto> partial_text]"

text \<open>Both calibration files are good; the raster write of \<open>a\<close> raises.\<close>

definition full_disk_env :: env where
  "full_disk_env =
     (session_env [''a'' \<mapsto> corners_text, ''b'' \<mapsto> commented_text])
       \<lparr>raster_write := (\<lambda>k. if k = ''a'' then Some (LibraryError ''No space left on device'')
                              else None)\<rparr>"

text \<open>Both calibration files are good; the Type 3 output is selected.\<close>

definition geocentric_env :: env where
  "geocentric_env =
     (session_env [''a'' \<mapsto> corners_text, ''b'' \<mapsto> commented_text])\<lparr>output_type := Type3\<rparr>"

text \<open>The same, and \<open>reproject_to_xyz\<close> raises.\<close>

definition reprojection_fails_env :: env where
  "reprojection_fails_env =
     geocentric_env\<lparr>reproject_to_xyz := (\<lambda>k. Some (LibraryError ''reprojection failed''))\<rparr>"

definition new_session :: conv_state where
  "new_session = \<lparr>tmp_files = [], zip_entries = [], success = [], failed = [], total_bytes = 0\<rparr>"

section \<open>Properties of the parser\<close>

subsection \<open>The loop body\<close>

lemma tags_distinct:
  "py ''MMPLL, 1'' \<noteq> py ''MMPLL, 2''" "py ''MMPLL, 1'' \<noteq> py ''MMPLL, 3''"
  "py ''MMPLL, 2'' \<noteq> py ''MMPLL, 3''"
  by (simp_all add: py_def)

lemma tags_length:
  "length (py ''MMPLL, 1'') = 8" "length (py ''MMPLL, 2'') = 8" "length (py ''MMPLL, 3'') = 8"
  by (simp_all add: py_def)

lemma startswith_exclusive:
  "startswith l (py ''MMPLL, 1'') \<Longrightarrow> \<not> startswith l (py ''MMPLL, 2'')"
  "startswith l (py ''MMPLL, 1'') \<Longrightarrow> \<not> startswith l (py ''MMPLL, 3'')"
  "startswith l (py ''MMPLL, 2'') \<Longrightarrow> \<not> startswith l (py ''MMPLL, 3'')"
  using tags_distinct by (auto simp: startswith_def tags_length)

lemma parse_line_unrecognized: "\<not> recognized l \<Longrightarrow> parse_line flt c l = Some c"
  by (simp add: recognized_def parse_line_def)

lemma parse_lines_filter:
  "parse_lines flt c (filter recognized ls) = parse_lines flt c ls"
  by (induction ls arbitrary: c) (auto simp: parse_line_unrecognized split: option.splits)

text \<open>Keys a line of a type does not write.\<close>

lemma parse_line_keeps1:
  "parse_line flt c l = Some c' \<Longrightarrow> \<not> startswith l (py ''MMPLL, 1'') \<Longrightarrow>
   c' Minx = c Minx \<and> c' Maxy = c Maxy"
  by (auto simp: parse_line_def split: if_splits option.splits)

lemma parse_line_keeps2:
  "parse_line flt c l = Some c' \<Longrightarrow> \<not> startswith l (py ''MMPLL, 2'') \<Longrightarrow> c' Maxx = c Maxx"
  by (auto simp: parse_line_def split: if_splits option.splits)

lemma parse_line_keeps3:
  "parse_line flt c l = Some c' \<Longrightarrow> \<not> startswith l (py ''MMPLL, 3'') \<Longrightarrow> c' Miny = c Miny"
  by (auto simp: parse_line_def split: if_splits option.splits)

lemma parse_line_sets1:
  "parse_line flt c l = Some c' \<Longrightarrow> startswith l (py ''MMPLL, 1'') \<Longrightarrow>
   \<exists>u v. line_values flt l = Some (u, v) \<and> c' Minx = Some u \<and> c' Maxy = Some v"
  by (auto simp: parse_line_def split: if_splits option.splits)

lemma parse_line_sets2:
  "parse_line flt c l = Some c' \<Longrightarrow> startswith l (py ''MMPLL, 2'') \<Longrightarrow>
   \<exists>u v. line_values flt l = Some (u, v) \<and> c' Maxx = Some u"
  using startswith_exclusive(1) [of l]
  by (auto simp: parse_line_def split: if_splits option.splits)

lemma parse_line_sets3:
  "parse_line flt c l = Some c' \<Longrightarrow> startswith l (py ''MMPLL, 3'') \<Longrightarrow>
   \<exists>u v. line_values flt l = Some (u, v) \<and> c' Miny = Some v"
  using startswith_exclusive(2,3) [of l]
  by (auto simp: parse_line_def split: if_splits option.splits)

lemma parse_line_wellformed:
  "(recognized l \<Longrightarrow> line_values flt l \<noteq> None) \<Longrightarrow> parse_line flt c l \<noteq> None"
  by (auto simp: parse_line_def recognized_def split: option.splits)


subsection \<open>The loop\<close>

lemma parse_lines_wellformed:
  "\<forall>l\<in>set ls. recognized l \<longrightarrow> line_values flt l \<noteq> None \<Longrightarrow> parse_lines flt c ls \<noteq> None"
proof (induction ls arbitrary: c)
  case Nil
  show ?case by simp
next
  case (Cons l ls)
  have "parse_line flt c l \<noteq> None"
    using Cons.prems by (intro parse_line_wellformed) simp
  then obtain c1 where "parse_line flt c l = Some c1" by blast
  moreover have "parse_lines flt c1 ls \<noteq> None"
    using Cons.prems by (intro Cons.IH) simp
  ultimately show ?case by simp
qed

lemma parse_lines_last:
  assumes keeps: "\<And>c l c'. parse_line flt c l = Some c' \<Longrightarrow> \<not> startswith l tag \<Longrightarrow> P c' = P c"
    and sets: "\<And>c l c'. parse_line flt c l = Some c' \<Longrightarrow> startswith l tag \<Longrightarrow>
                 \<exists>uv. line_values flt l = Some uv \<and> P c' = Q uv"
    and run: "parse_lines flt c ls = Some c'"
  shows "case filter (\<lambda>l. startswith l tag) ls of
           [] \<Rightarrow> P c' = P c
         | _ # _ \<Rightarrow> \<exists>uv. last_values flt tag ls = Some uv \<and> P c' = Q uv"
  using run
proof (induction ls arbitrary: c)
  case Nil
  then show ?case by simp
next
  case (Cons l ls)
  from Cons.prems obtain c1 where l: "parse_line flt c l = Some c1"
    and ls: "parse_lines flt c1 ls = Some c'"
    by (auto split: option.splits)
  note IH = Cons.IH [OF ls]
  show ?case
  proof (cases "filter (\<lambda>l. startswith l tag) ls")
    case Nil
    with IH have same: "P c' = P c1" by simp
    show ?thesis
    proof (cases "startswith l tag")
      case True
      from sets [OF l True] obtain uv where "line_values flt l = Some uv" "P c1 = Q uv"
        by blast
      with True Nil same show ?thesis by (simp add: last_values_def)
    next
      case False
      with keeps [OF l] Nil same show ?thesis by simp
    qed
  next
    case (Cons x xs)
    with IH obtain uv where "last_values flt tag ls = Some uv" "P c' = Q uv" by auto
    with Cons show ?thesis by (auto simp: last_values_def)
  qed
qed

lemma parse_lines_tag1:
  assumes "parse_lines flt c ls = Some c'"
  shows "case filter (\<lambda>l. startswith l (py ''MMPLL, 1'')) ls of
           [] \<Rightarrow> c' Minx = c Minx \<and> c' Maxy = c Maxy
         | _ # _ \<Rightarrow> \<exists>u v. last_values flt (py ''MMPLL, 1'') ls = Some (u, v) \<and>
                      c' Minx = Some u \<and> c' Maxy = Some v"
  using parse_lines_last [where tag = "py ''MMPLL, 1''" and P = "\<lambda>c. (c Minx, c Maxy)"
    and Q = "\<lambda>(u, v). (Some u, Some v)" and flt = flt, OF _ _ assms]
    parse_line_keeps1 [of flt] parse_line_sets1 [of flt]
  by (fastforce split: list.splits)

lemma parse_lines_tag2:
  assumes "parse_lines flt c ls = Some c'"
  shows "case filter (\<lambda>l. startswith l (py ''MMPLL, 2'')) ls of
           [] \<Rightarrow> c' Maxx = c Maxx
         | _ # _ \<Rightarrow> \<exists>u v. last_values flt (py ''MMPLL, 2'') ls = Some (u, v) \<and> c' Maxx = Some u"
  using parse_lines_last [where tag = "py ''MMPLL, 2''" and P = "\<lambda>c. c Maxx"
    and Q = "\<lambda>(u, v). Some u" and flt = flt, OF _ _ assms]
    parse_line_keeps2 [of flt] parse_line_sets2 [of flt]
  by (fastforce split: list.splits)

lemma parse_lines_tag3:
  assumes "parse_lines flt c ls = Some c'"
  shows "case filter (\<lambda>l. startswith l (py ''MMPLL, 3'')) ls of
           [] \<Rightarrow> c' Miny = c Miny
         | _ # _ \<Rightarrow> \<exists>u v. last_values flt (py ''MMPLL, 3'') ls = Some (u, v) \<and> c' Miny = Some v"
  using parse_lines_last [where tag = "py ''MMPLL, 3''" and P = "\<lambda>c. c Miny"
    and Q = "\<lambda>(u, v). Some v" and flt = flt, OF _ _ assms]
    parse_line_keeps3 [of flt] parse_line_sets3 [of flt]
  by (fastforce split: list.splits)


subsection \<open>Evaluating the parser on a file\<close>

lemmas parser_eval =
  parse_map_def decode_utf8_def splitlines_def py_def startswith_def parse_line_def
  line_values_def slice_def unpack2_def float_decimal_def strip_def unsigned_decimal_def
  digits_val_def is_space_def is_digit_def is_linebreak_def bounds_of_def cont_def
  second_ok_def unlines_def has_line_def well_formed_def recognized_def last_values_def

subsection \<open>The claims about \<open>parse_map\<close>\<close>

text \<open>
  C1, as stated, fails: on the scenario's text the parser does not return the bounds
  \<open>minx = -10.0, miny = 5.0, maxx = 30.0, maxy = 20.0\<close>.
\<close>

theorem scenario_bounds_counterexample:
  "parse_map float_decimal scenario_text \<noteq> Some (-10, 5, 30, 20)"
  by (simp add: scenario_text_def parser_eval)

text \<open>
  C1, amended: on the scenario's text \<open>parse_map\<close> returns \<open>minx = 1.0, miny = 5.0,
  maxx = 1.0, maxy = -10.0\<close>, because \<open>split(",")\<close> makes the tag and the index the
  fields 0 and 1, so that the slice \<open>[2:4]\<close> holds the second \<open>1\<close> and the first
  coordinate. The bounds \<open>-10.0, 5.0, 30.0, 20.0\<close> are returned for the text with four
  fields on each line: \<open>MMPLL, 1, -10.0, 20.0\<close>, \<open>MMPLL, 2, 30.0, 5.0\<close>,
  \<open>MMPLL, 3, 5.0, 5.0\<close>.
\<close>

theorem scenario_bounds:
  "parse_map float_decimal scenario_text = Some (1, 5, 1, -10) \<and>
   parse_map float_decimal corners_text = Some (-10, 5, 30, 20)"
  by (simp add: scenario_text_def corners_text_def parser_eval)

text \<open>
  C2: a file that lacks a line of index 1, of index 2 or of index 3 (also one that is not
  UTF-8 at all) makes \<open>parse_map\<close> return \<open>None\<close>, whatever \<open>float\<close> does: no bounds
  are returned with a value missing or defaulted.
\<close>

theorem missing_line_fails:
  assumes "\<not> (has_line (py ''MMPLL, 1'') file_contents \<and> has_line (py ''MMPLL, 2'') file_contents \<and>
              has_line (py ''MMPLL, 3'') file_contents)"
  shows "parse_map flt file_contents = None"
proof (cases "decode_utf8 file_contents")
  case None
  then show ?thesis by (simp add: parse_map_def)
next
  case (Some t)
  show ?thesis
  proof (cases "parse_lines flt Map.empty (splitlines t)")
    case None
    with Some show ?thesis by (simp add: parse_map_def)
  next
    case (Some c')
    from assms \<open>decode_utf8 file_contents = Some t\<close>
    consider "filter (\<lambda>l. startswith l (py ''MMPLL, 1'')) (splitlines t) = []"
      | "filter (\<lambda>l. startswith l (py ''MMPLL, 2'')) (splitlines t) = []"
      | "filter (\<lambda>l. startswith l (py ''MMPLL, 3'')) (splitlines t) = []"
      by (auto simp: has_line_def list_ex_iff filter_empty_conv)
    then have "bounds_of c' = None"
    proof cases
      case 1
      with parse_lines_tag1 [OF Some] have "c' Minx = None" by simp
      then show ?thesis by (simp add: bounds_of_def)
    next
      case 2
      with parse_lines_tag2 [OF Some] have "c' Maxx = None" by simp
      then show ?thesis by (simp add: bounds_of_def split: option.splits)
    next
      case 3
      with parse_lines_tag3 [OF Some] have "c' Miny = None" by simp
      then show ?thesis by (simp add: bounds_of_def split: option.splits)
    qed
    with Some \<open>decode_utf8 file_contents = Some t\<close> show ?thesis
      by (simp add: parse_map_def)
  qed
qed

text \<open>C2 at a file with lines of index 1 and 2 only.\<close>

theorem missing_line_fails_witness:
  "\<not> (has_line (py ''MMPLL, 1'') partial_text \<and> has_line (py ''MMPLL, 2'') partial_text \<and>
      has_line (py ''MMPLL, 3'') partial_text) \<and>
   has_line (py ''MMPLL, 1'') partial_text \<and> has_line (py ''MMPLL, 2'') partial_text \<and>
   parse_map float_decimal partial_text = None"
proof -
  have h: "\<not> (has_line (py ''MMPLL, 1'') partial_text \<and> has_line (py ''MMPLL, 2'') partial_text \<and>
      has_line (py ''MMPLL, 3'') partial_text)"
    by (simp add: partial_text_def parser_eval)
  have "has_line (py ''MMPLL, 1'') partial_text \<and> has_line (py ''MMPLL, 2'') partial_text"
    by (simp add: partial_text_def parser_eval)
  with h missing_line_fails [OF h, of float_decimal] show ?thesis by simp
qed

text \<open>
  C9: the result of \<open>parse_map\<close> depends on the recognized lines only. Two texts whose
  lines differ by lines that start with none of the three tags, inserted or removed
  anywhere, give the same result, a failure as well as a success; so such a line never
  makes the parser fail.
\<close>

theorem unrecognized_lines_ignored:
  assumes "decode_utf8 file_contents = Some text"
    and "decode_utf8 file_contents' = Some text'"
    and "filter recognized (splitlines text) = filter recognized (splitlines text')"
  shows "parse_map flt file_contents = parse_map flt file_contents'"
proof -
  have "parse_lines flt Map.empty (splitlines text) = parse_lines flt Map.empty (splitlines text')"
    using assms(3) parse_lines_filter [of flt Map.empty "splitlines text"]
      parse_lines_filter [of flt Map.empty "splitlines text'"]
    by simp
  with assms(1,2) show ?thesis by (simp add: parse_map_def)
qed


text \<open>C9 at a file with a header line, a line of index 4 and an empty line.\<close>

theorem unrecognized_lines_ignored_witness:
  "decode_utf8 commented_text = Some (py commented_text) \<and>
   decode_utf8 corners_text = Some (py corners_text) \<and>
   filter recognized (splitlines (py commented_text)) =
     filter recognized (splitlines (py corners_text)) \<and>
   splitlines (py commented_text) \<noteq> splitlines (py corners_text) \<and>
   parse_map float_decimal commented_text = parse_map float_decimal corners_text"
proof -
  have h1: "decode_utf8 commented_text = Some (py commented_text)"
    by (simp add: commented_text_def parser_eval)
  have h2: "decode_utf8 corners_text = Some (py corners_text)"
    by (simp add: corners_text_def parser_eval)
  have h3: "filter recognized (splitlines (py commented_text)) =
     filter recognized (splitlines (py corners_text))"
    by (simp add: commented_text_def corners_text_def parser_eval)
  have h4: "splitlines (py commented_text) \<noteq> splitlines (py corners_text)"
    by (simp add: commented_text_def corners_text_def parser_eval)
  from h1 h2 h3 h4 unrecognized_lines_ignored [OF h1 h2 h3, of float_decimal]
  show ?thesis by simp
qed





text \<open>
  C5, as stated, fails: a file with all three line types, every field a number, whose
  index 1 is the lower right corner gives \<open>minx = 30 > maxx = -10\<close> and
  \<open>miny = 20 > maxy = 5\<close>.
\<close>

theorem bounds_unordered_counterexample:
  "well_formed float_decimal swapped_text \<and> has_line (py ''MMPLL, 1'') swapped_text \<and>
   has_line (py ''MMPLL, 2'') swapped_text \<and> has_line (py ''MMPLL, 3'') swapped_text \<and>
   parse_map float_decimal swapped_text = Some (30, 20, -10, 5) \<and>
   \<not> ((30::real) < -10) \<and> \<not> ((20::real) < 5)"
  by (simp add: swapped_text_def parser_eval)

text \<open>
  C5, amended: for a file with all three line types whose recognized lines all carry two
  readable numbers in the fields 2 and 3, \<open>parse_map\<close> succeeds and returns the values as
  they stand in the file: \<open>minx\<close> and \<open>maxy\<close> from the last line of index 1, \<open>maxx\<close> from
  the last line of index 2, \<open>miny\<close> from the last line of index 3. It does not compare
  them.
\<close>

theorem bounds_from_last_lines:
  assumes wf: "well_formed flt file_contents"
    and l1: "has_line (py ''MMPLL, 1'') file_contents"
    and l2: "has_line (py ''MMPLL, 2'') file_contents"
    and l3: "has_line (py ''MMPLL, 3'') file_contents"
  shows "\<exists>text x1 y1 x2 y2 x3 y3.
           decode_utf8 file_contents = Some text \<and>
           last_values flt (py ''MMPLL, 1'') (splitlines text) = Some (x1, y1) \<and>
           last_values flt (py ''MMPLL, 2'') (splitlines text) = Some (x2, y2) \<and>
           last_values flt (py ''MMPLL, 3'') (splitlines text) = Some (x3, y3) \<and>
           parse_map flt file_contents = Some (x1, y3, x2, y1)"
proof -
  from wf obtain t where t: "decode_utf8 file_contents = Some t"
    and ok: "\<forall>l\<in>set (splitlines t). recognized l \<longrightarrow> line_values flt l \<noteq> None"
    by (auto simp: well_formed_def list_all_iff split: option.splits)
  from parse_lines_wellformed [OF ok] obtain c'
    where run: "parse_lines flt Map.empty (splitlines t) = Some c'"
    by blast
  from l1 t have "filter (\<lambda>l. startswith l (py ''MMPLL, 1'')) (splitlines t) \<noteq> []"
    by (auto simp: has_line_def list_ex_iff filter_empty_conv)
  with parse_lines_tag1 [OF run] obtain x1 y1
    where v1: "last_values flt (py ''MMPLL, 1'') (splitlines t) = Some (x1, y1)"
      and c1: "c' Minx = Some x1" "c' Maxy = Some y1"
    by (auto split: list.splits)
  from l2 t have "filter (\<lambda>l. startswith l (py ''MMPLL, 2'')) (splitlines t) \<noteq> []"
    by (auto simp: has_line_def list_ex_iff filter_empty_conv)
  with parse_lines_tag2 [OF run] obtain x2 y2
    where v2: "last_values flt (py ''MMPLL, 2'') (splitlines t) = Some (x2, y2)"
      and c2: "c' Maxx = Some x2"
    by (auto split: list.splits)
  from l3 t have "filter (\<lambda>l. startswith l (py ''MMPLL, 3'')) (splitlines t) \<noteq> []"
    by (auto simp: has_line_def list_ex_iff filter_empty_conv)
  with parse_lines_tag3 [OF run] obtain x3 y3
    where v3: "last_values flt (py ''MMPLL, 3'') (splitlines t) = Some (x3, y3)"
      and c3: "c' Miny = Some y3"
    by (auto split: list.splits)
  have "parse_map flt file_contents = Some (x1, y3, x2, y1)"
    using t run c1 c2 c3 by (simp add: parse_map_def bounds_of_def)
  with t v1 v2 v3 show ?thesis by blast
qed

text \<open>C5, amended, at the file with the swapped corners.\<close>

theorem bounds_from_last_lines_witness:
  "well_formed float_decimal swapped_text \<and> has_line (py ''MMPLL, 1'') swapped_text \<and>
   has_line (py ''MMPLL, 2'') swapped_text \<and> has_line (py ''MMPLL, 3'') swapped_text \<and>
   (\<exists>text x1 y1 x2 y2 x3 y3.
      decode_utf8 swapped_text = Some text \<and>
      last_values float_decimal (py ''MMPLL, 1'') (splitlines text) = Some (x1, y1) \<and>
      last_values float_decimal (py ''MMPLL, 2'') (splitlines text) = Some (x2, y2) \<and>
      last_values float_decimal (py ''MMPLL, 3'') (splitlines text) = Some (x3, y3) \<and>
      parse_map float_decimal swapped_text = Some (x1, y3, x2, y1))"
proof -
  have h0: "well_formed float_decimal swapped_text"
    by (simp add: swapped_text_def parser_eval)
  have h1: "has_line (py ''MMPLL, 1'') swapped_text"
    by (simp add: swapped_text_def parser_eval)
  have h2: "has_line (py ''MMPLL, 2'') swapped_text"
    by (simp add: swapped_text_def parser_eval)
  have h3: "has_line (py ''MMPLL, 3'') swapped_text"
    by (simp add: swapped_text_def parser_eval)
  from h0 h1 h2 h3 bounds_from_last_lines [OF h0 h1 h2 h3] show ?thesis by blast
qed

section \<open>Properties of the transform\<close>

text \<open>
  C7, as stated, fails: for bounds with \<open>minx > maxx\<close> and \<open>miny > maxy\<close>, and for a
  negative width, \<open>from_bounds\<close> returns a transform.
\<close>

theorem from_bounds_unchecked_counterexample:
  "\<not> ((30::real) < -10) \<and> \<not> ((20::real) < 5) \<and>
   from_bounds 30 20 (-10) 5 100 50 = Inr (Affine (-2/5) 0 30 0 (3/10) 5) \<and>
   from_bounds (-10) 5 30 20 (-100) 50 = Inr (Affine (-2/5) 0 (-10) 0 (-3/10) 20)"
  by (simp add: from_bounds_def translation_def scale_def)

text \<open>
  C7, amended: \<open>from_bounds\<close> fails exactly when the width or the height is zero, with
  the ZeroDivisionError of the division; for every other width and height, negative
  ones too, and for all bounds, also when \<open>minx < maxx\<close> or \<open>miny < maxy\<close> is violated, it
  returns the transform with the scales \<open>(maxx - minx) / width\<close> and
  \<open>(miny - maxy) / height\<close>.
\<close>

theorem from_bounds_fails_iff:
  "(width = 0 \<or> height = 0 \<longrightarrow>
      from_bounds west south east north width height = Inl ZeroDivisionError) \<and>
   (width \<noteq> 0 \<and> height \<noteq> 0 \<longrightarrow>
      from_bounds west south east north width height =
        Inr (Affine ((east - west) / of_int width) 0 west
                    0 ((south - north) / of_int height) north))"
  by (simp add: from_bounds_def translation_def scale_def)

text \<open>C7, amended, at a zero width, a zero height and bounds of no extent.\<close>

theorem from_bounds_fails_iff_witness:
  "from_bounds (-10) 5 30 20 0 50 = Inl ZeroDivisionError \<and>
   from_bounds (-10) 5 30 20 100 0 = Inl ZeroDivisionError \<and>
   from_bounds 30 5 30 5 100 50 = Inr (Affine 0 0 30 0 0 5)"
  using from_bounds_fails_iff [of 0 50 "-10" 5 30 20]
    from_bounds_fails_iff [of 100 0 "-10" 5 30 20]
    from_bounds_fails_iff [of 100 50 30 5 30 5]
  by simp

section \<open>Properties of the conversion loop\<close>

subsection \<open>Temporary file names\<close>

lemma le_fold_max: "a \<le> fold max xs (a::nat)"
  by (induction xs arbitrary: a) (auto intro: order_trans [OF max.cobounded2])

lemma mem_le_fold_max: "x \<in> set xs \<Longrightarrow> x \<le> fold max xs (a::nat)"
proof (induction xs arbitrary: a)
  case Nil
  then show ?case by simp
next
  case (Cons y ys)
  show ?case
  proof (cases "x = y")
    case True
    have "y \<le> max y a" by simp
    also have "\<dots> \<le> fold max ys (max y a)" by (rule le_fold_max)
    finally show ?thesis using True by simp
  next
    case False
    with Cons show ?thesis by simp
  qed
qed

lemma fresh_notin: "fresh files \<notin> set files"
  using mem_le_fold_max [of "fresh files" files 0] by (auto simp: fresh_def)


subsection \<open>The steps of one pair\<close>

lemma write_base_frame:
  assumes "write_base en k s = (r, s1)"
  shows "zip_entries s1 = zip_entries s \<and> success s1 = success s \<and> failed s1 = failed s \<and>
         total_bytes s1 = total_bytes s"
  using assms
  by (auto simp: write_base_def named_temporary_file_def Let_def
      split: sum.splits option.splits prod.splits)

lemma write_base_tmp:
  assumes "write_base en k s = (r, s1)"
  shows "tmp_files s1 = (if creates_temp en k then fresh (tmp_files s) # tmp_files s else tmp_files s)
         \<and> (case r of
              Inl e \<Rightarrow> creates_temp en k \<longrightarrow> raster_write en k = Some e
            | Inr p \<Rightarrow> creates_temp en k \<and> raster_write en k = None \<and> p = fresh (tmp_files s))"
  using assms
  by (auto simp: write_base_def creates_temp_def named_temporary_file_def Let_def
      split: sum.splits option.splits prod.splits)

lemma write_base_uncached:
  assumes "map_of (bounds_cache en) k = None"
  shows "\<exists>e. write_base en k s = (Inl e, s)"
  using assms by (auto simp: write_base_def split: sum.splits prod.splits)

lemma reproject_step_frame:
  assumes "reproject_step en k p s = (r, s1)"
  shows "zip_entries s1 = zip_entries s \<and> success s1 = success s \<and> failed s1 = failed s \<and>
         total_bytes s1 = total_bytes s"
  using assms
  by (auto simp: reproject_step_def named_temporary_file_def Let_def
      split: if_splits option.splits prod.splits)

lemma reproject_step_Type2:
  "output_type en = Type2 \<Longrightarrow> reproject_step en k p s = (Inr (p, None), s)"
  by (simp add: reproject_step_def)

lemma archive_step_summary:
  assumes "archive_step en k p x s = (r, s1)"
  shows "failed s1 = failed s \<and>
         success s1 = (case r of Inl e \<Rightarrow> success s | Inr u \<Rightarrow> success s @ [k])"
  using assms
  by (auto simp: archive_step_def os_remove_def Let_def
      split: if_splits option.splits sum.splits)

lemma archive_step_names:
  assumes "archive_step en k p x s = (r, s1)"
  shows "fst ` set (zip_entries s1) \<subseteq> insert (archive_name k) (fst ` set (zip_entries s))"
  using assms
  by (auto simp: archive_step_def os_remove_def Let_def
      split: if_splits option.splits sum.splits)

lemma archive_step_Type2:
  assumes "output_type en = Type2" and "p \<in> set (tmp_files s)"
  shows "archive_step en k p None s =
           (case writestr en k of
              Some e \<Rightarrow> (Inl e, s)
            | None \<Rightarrow>
                (Inr (), s\<lparr>zip_entries := zip_entries s @ [(archive_name k, tif_bytes en k)],
                          total_bytes := total_bytes s + length (tif_bytes en k),
                          tmp_files := removeAll p (tmp_files s),
                          success := success s @ [k]\<rparr>))"
  using assms
  by (auto simp: archive_step_def os_remove_def Let_def split: option.splits)

lemma try_pair_summary:
  assumes "try_pair en k s = (r, s1)"
  shows "failed s1 = failed s \<and>
         success s1 = (case r of Inl e \<Rightarrow> success s | Inr u \<Rightarrow> success s @ [k])"
proof -
  obtain r1 t1 where w: "write_base en k s = (r1, t1)" by (cases "write_base en k s")
  note f1 = write_base_frame [OF w]
  show ?thesis
  proof (cases r1)
    case (Inl e)
    with assms w f1 show ?thesis by (auto simp: try_pair_def)
  next
    case (Inr p)
    obtain r2 t2 where rp: "reproject_step en k p t1 = (r2, t2)"
      by (cases "reproject_step en k p t1")
    note f2 = reproject_step_frame [OF rp]
    show ?thesis
    proof (cases r2)
      case (Inl e)
      with assms w Inr rp f1 f2 show ?thesis by (auto simp: try_pair_def)
    next
      case (Inr px)
      obtain p' x where px: "px = (p', x)" by (cases px)
      with assms w \<open>r1 = Inr p\<close> rp Inr have "archive_step en k p' x t2 = (r, s1)"
        by (simp add: try_pair_def)
      from archive_step_summary [OF this] f1 f2 show ?thesis by (simp split: sum.splits)
    qed
  qed
qed

lemma try_pair_names:
  assumes "try_pair en k s = (r, s1)"
  shows "fst ` set (zip_entries s1) \<subseteq> insert (archive_name k) (fst ` set (zip_entries s))"
proof -
  obtain r1 t1 where w: "write_base en k s = (r1, t1)" by (cases "write_base en k s")
  note f1 = write_base_frame [OF w]
  show ?thesis
  proof (cases r1)
    case (Inl e)
    with assms w f1 show ?thesis by (auto simp: try_pair_def)
  next
    case (Inr p)
    obtain r2 t2 where rp: "reproject_step en k p t1 = (r2, t2)"
      by (cases "reproject_step en k p t1")
    note f2 = reproject_step_frame [OF rp]
    show ?thesis
    proof (cases r2)
      case (Inl e)
      with assms w Inr rp f1 f2 show ?thesis by (auto simp: try_pair_def)
    next
      case (Inr px)
      obtain p' x where px: "px = (p', x)" by (cases px)
      with assms w \<open>r1 = Inr p\<close> rp Inr have "archive_step en k p' x t2 = (r, s1)"
        by (simp add: try_pair_def)
      from archive_step_names [OF this] f1 f2 show ?thesis by simp
    qed
  qed
qed

lemma try_pair_uncached:
  assumes "map_of (bounds_cache en) k = None"
  shows "\<exists>e. try_pair en k s = (Inl e, s)"
  using write_base_uncached [OF assms, of s] by (auto simp: try_pair_def)

lemma try_pair_Type2:
  assumes "output_type en = Type2"
  shows "try_pair en k s =
           (case write_base en k s of
              (Inl e, s1) \<Rightarrow> (Inl e, s1)
            | (Inr p, s1) \<Rightarrow> archive_step en k p None s1)"
  using assms by (simp add: try_pair_def reproject_step_Type2 split: prod.splits sum.splits)


subsection \<open>One iteration and the loop\<close>

lemma convert_pair_summary:
  "case fst (try_pair en k s) of
     Inl e \<Rightarrow> failed (convert_pair en k s) = failed s @ [(k, e)] \<and>
              success (convert_pair en k s) = success s
   | Inr u \<Rightarrow> failed (convert_pair en k s) = failed s \<and>
              success (convert_pair en k s) = success s @ [k]"
proof -
  obtain r s1 where t: "try_pair en k s = (r, s1)" by (cases "try_pair en k s")
  from try_pair_summary [OF t] t show ?thesis
    by (cases r) (simp_all add: convert_pair_def)
qed

lemma convert_pair_names:
  "fst ` set (zip_entries (convert_pair en k s))
     \<subseteq> insert (archive_name k) (fst ` set (zip_entries s))"
proof -
  obtain r s1 where t: "try_pair en k s = (r, s1)" by (cases "try_pair en k s")
  from try_pair_names [OF t] t show ?thesis
    by (cases r) (simp_all add: convert_pair_def)
qed

lemma convert_pair_uncached:
  assumes "map_of (bounds_cache en) k = None"
  shows "\<exists>e. convert_pair en k s = s\<lparr>failed := failed s @ [(k, e)]\<rparr>"
  using try_pair_uncached [OF assms, of s] by (auto simp: convert_pair_def)

lemma convert_pair_mset:
  "mset (success (convert_pair en k s) @ map fst (failed (convert_pair en k s))) =
   mset (success s @ map fst (failed s)) + {#k#}"
  using convert_pair_summary [of en k s] by (auto split: sum.splits)

lemma conversion_loop_append:
  "conversion_loop en (ks1 @ ks2) s = conversion_loop en ks2 (conversion_loop en ks1 s)"
  by (induction ks1 arbitrary: s) simp_all

lemma conversion_loop_mset:
  "mset (success (conversion_loop en ks s) @ map fst (failed (conversion_loop en ks s))) =
   mset (success s @ map fst (failed s)) + mset ks"
proof (induction ks arbitrary: s)
  case Nil
  show ?case by simp
next
  case (Cons k ks)
  show ?case
    using Cons.IH [of "convert_pair en k s"] convert_pair_mset [of en k s] by simp
qed

lemma conversion_loop_failed_mono:
  "set (failed s) \<subseteq> set (failed (conversion_loop en ks s))"
proof (induction ks arbitrary: s)
  case Nil
  show ?case by simp
next
  case (Cons k ks)
  have "set (failed s) \<subseteq> set (failed (convert_pair en k s))"
    using convert_pair_summary [of en k s] by (auto split: sum.splits)
  with Cons.IH [of "convert_pair en k s"] show ?case by auto
qed

lemma conversion_loop_success_mono:
  "set (success s) \<subseteq> set (success (conversion_loop en ks s))"
proof (induction ks arbitrary: s)
  case Nil
  show ?case by simp
next
  case (Cons k ks)
  have "set (success s) \<subseteq> set (success (convert_pair en k s))"
    using convert_pair_summary [of en k s] by (auto split: sum.splits)
  with Cons.IH [of "convert_pair en k s"] show ?case by auto
qed

text \<open>Only keys with cached bounds reach the success list and the archive.\<close>

lemma conversion_loop_success_cached:
  "set (success (conversion_loop en ks s))
     \<subseteq> set (success s) \<union> {k \<in> set ks. map_of (bounds_cache en) k \<noteq> None}"
proof (induction ks arbitrary: s)
  case Nil
  show ?case by simp
next
  case (Cons k ks)
  have "set (success (convert_pair en k s))
          \<subseteq> set (success s) \<union> {k'. k' = k \<and> map_of (bounds_cache en) k \<noteq> None}"
  proof (cases "map_of (bounds_cache en) k")
    case None
    from convert_pair_uncached [OF this, of s] show ?thesis by auto
  next
    case (Some b)
    with convert_pair_summary [of en k s] show ?thesis by (auto split: sum.splits)
  qed
  with Cons.IH [of "convert_pair en k s"] show ?case by auto
qed

lemma conversion_loop_names_cached:
  "fst ` set (zip_entries (conversion_loop en ks s))
     \<subseteq> fst ` set (zip_entries s) \<union>
        archive_name ` {k \<in> set ks. map_of (bounds_cache en) k \<noteq> None}"
proof (induction ks arbitrary: s)
  case Nil
  show ?case by simp
next
  case (Cons k ks)
  have step: "fst ` set (zip_entries (convert_pair en k s))
          \<subseteq> fst ` set (zip_entries s) \<union>
             (if map_of (bounds_cache en) k = None then {} else {archive_name k})"
  proof (cases "map_of (bounds_cache en) k")
    case None
    from convert_pair_uncached [OF this, of s]
    obtain e where "convert_pair en k s = s\<lparr>failed := failed s @ [(k, e)]\<rparr>" by blast
    with None show ?thesis by simp
  next
    case (Some b)
    with convert_pair_names [of en k s] show ?thesis by simp
  qed
  show ?case
  proof
    fix x
    assume "x \<in> fst ` set (zip_entries (conversion_loop en (k # ks) s))"
    then have "x \<in> fst ` set (zip_entries (conversion_loop en ks (convert_pair en k s)))"
      by simp
    with Cons.IH [of "convert_pair en k s"]
    consider (old) "x \<in> fst ` set (zip_entries (convert_pair en k s))"
      | (new) "x \<in> archive_name ` {k \<in> set ks. map_of (bounds_cache en) k \<noteq> None}"
      by blast
    then show "x \<in> fst ` set (zip_entries s) \<union>
        archive_name ` {k' \<in> set (k # ks). map_of (bounds_cache en) k' \<noteq> None}"
    proof cases
      case old
      with step have "x \<in> fst ` set (zip_entries s) \<or>
          (map_of (bounds_cache en) k \<noteq> None \<and> x = archive_name k)"
        by (cases "map_of (bounds_cache en) k = None") auto
      then show ?thesis by auto
    next
      case new
      then show ?thesis by auto
    qed
  qed
qed


subsection \<open>The Type 2 output and the bounds cache\<close>

lemma archive_name_inj: "archive_name k = archive_name k' \<Longrightarrow> k = k'"
  by (simp add: archive_name_def)

lemma convert_pair_Type2:
  assumes t2: "output_type en = Type2"
  shows "tmp_files (convert_pair en k s) =
           (if creates_temp en k \<and> \<not> steps_ok en k then fresh (tmp_files s) # tmp_files s
            else tmp_files s) \<and>
         (fst (try_pair en k s) = Inr ()) = steps_ok en k"
proof -
  obtain r1 t1 where w: "write_base en k s = (r1, t1)" by (cases "write_base en k s")
  note tmp = write_base_tmp [OF w]
  have tp: "try_pair en k s =
      (case r1 of Inl e \<Rightarrow> (Inl e, t1) | Inr p \<Rightarrow> archive_step en k p None t1)"
    using w by (simp add: try_pair_Type2 [OF t2] split: sum.splits)
  show ?thesis
  proof (cases r1)
    case (Inl e)
    with tp have "try_pair en k s = (Inl e, t1)" by simp
    moreover from Inl tmp have "\<not> steps_ok en k" by (auto simp: steps_ok_def)
    ultimately show ?thesis using tmp by (simp add: convert_pair_def)
  next
    case (Inr p)
    with tmp have c: "creates_temp en k" and rw: "raster_write en k = None"
      and p: "p = fresh (tmp_files s)" and t1: "tmp_files t1 = p # tmp_files s"
      by simp_all
    from t1 have "p \<in> set (tmp_files t1)" by simp
    note a = archive_step_Type2 [OF t2 this, of k]
    from p have notin: "p \<notin> set (tmp_files s)" by (simp add: fresh_notin)
    show ?thesis
    proof (cases "writestr en k")
      case None
      with a tp Inr c rw t1 notin p show ?thesis
        by (simp add: convert_pair_def steps_ok_def)
    next
      case (Some e)
      with a tp Inr c rw t1 p show ?thesis
        by (simp add: convert_pair_def steps_ok_def)
    qed
  qed
qed

lemma cache_bounds_lookup:
  "map_of (cache_bounds flt mf cache k) k' =
     (if k' = k then (case parsed flt mf k of None \<Rightarrow> map_of cache k' | Some b \<Rightarrow> Some b)
      else map_of cache k')"
  by (simp add: cache_bounds_def parsed_def update_conv' split: option.splits)

lemma foldl_cache_bounds_lookup:
  "map_of (foldl (cache_bounds flt mf) cache ks) k =
     (if k \<in> set ks then (case parsed flt mf k of None \<Rightarrow> map_of cache k | Some b \<Rightarrow> Some b)
      else map_of cache k)"
  by (induction ks arbitrary: cache) (auto simp: cache_bounds_lookup split: option.splits)

lemma eager_parse_lookup:
  "map_of (eager_parse flt mf ks) k = (if k \<in> set ks then parsed flt mf k else None)"
  by (simp add: eager_parse_def foldl_cache_bounds_lookup split: option.splits)

lemma conversion_loop_outcome:
  assumes "k \<in> set ks"
  shows "k \<in> set (success (conversion_loop en ks s)) \<or>
         k \<in> fst ` set (failed (conversion_loop en ks s))"
proof -
  from assms have "k \<in># mset (success s @ map fst (failed s)) + mset ks" by simp
  then have "k \<in># mset (success (conversion_loop en ks s) @
      map fst (failed (conversion_loop en ks s)))"
    by (simp only: conversion_loop_mset)
  then show ?thesis by auto
qed

lemma conversion_loop_success_Type2:
  assumes "output_type en = Type2" and "steps_ok en k" and "k \<in> set ks"
  shows "k \<in> set (success (conversion_loop en ks s))"
proof -
  from \<open>k \<in> set ks\<close> obtain ks1 ks2 where ks: "ks = ks1 @ k # ks2"
    by (auto dest: split_list)
  define s1 where "s1 = conversion_loop en ks1 s"
  have "fst (try_pair en k s1) = Inr ()"
    using convert_pair_Type2 [OF assms(1), of k s1] assms(2) by simp
  with convert_pair_summary [of en k s1] have "k \<in> set (success (convert_pair en k s1))"
    by simp
  with conversion_loop_success_mono [of "convert_pair en k s1" en ks2]
  have "k \<in> set (success (conversion_loop en ks2 (convert_pair en k s1)))" by blast
  then show ?thesis by (simp add: ks conversion_loop_append s1_def)
qed


lemma convert_pair_KeyError:
  assumes "map_of (bounds_cache en) k = None" and "image_shape en k = Inr hw"
  shows "convert_pair en k s = s\<lparr>failed := failed s @ [(k, KeyError k)]\<rparr>"
  using assms by (cases hw) (simp add: convert_pair_def try_pair_def write_base_def)

lemma conversion_loop_KeyError:
  assumes "k \<in> set ks" and "map_of (bounds_cache en) k = None" and "image_shape en k = Inr hw"
  shows "(k, KeyError k) \<in> set (failed (conversion_loop en ks s))"
proof -
  from \<open>k \<in> set ks\<close> obtain ks1 ks2 where ks: "ks = ks1 @ k # ks2"
    by (auto dest: split_list)
  define s1 where "s1 = conversion_loop en ks1 s"
  have "(k, KeyError k) \<in> set (failed (convert_pair en k s1))"
    by (simp add: convert_pair_KeyError [OF assms(2,3)])
  with conversion_loop_failed_mono [of "convert_pair en k s1" en ks2]
  have "(k, KeyError k) \<in> set (failed (conversion_loop en ks2 (convert_pair en k s1)))"
    by blast
  then show ?thesis by (simp add: ks conversion_loop_append s1_def)
qed

subsection \<open>Temporary files after a pair\<close>

text \<open>
  With the Type 3 output no pair ends its \<open>try\<close> block: \<open>final_tif\<close> is the name of
  \<open>temp_xyz\<close> when the files are removed, so the second \<open>os.remove\<close> finds the file gone. And
  whatever the output type, a pair that created its temporary file and did not end its
  \<open>try\<close> block leaves that file on disk.
\<close>

lemma archive_step_keeps_other:
  assumes "archive_step en k p x s = (r, s1)" and "q \<in> set (tmp_files s)" and "q \<noteq> p"
    and "x = None \<or> x = Some p"
  shows "q \<in> set (tmp_files s1)"
  using assms
  by (auto simp: archive_step_def os_remove_def Let_def
      split: if_splits option.splits sum.splits)

lemma archive_step_Type3_raises:
  assumes "output_type en = Type3"
  shows "fst (archive_step en k p (Some p) s) \<noteq> Inr ()"
  using assms
  by (auto simp: archive_step_def os_remove_def Let_def
      split: if_splits option.splits sum.splits)

lemma try_pair_Type3_raises:
  assumes "output_type en = Type3"
  shows "fst (try_pair en k s) \<noteq> Inr ()"
proof -
  obtain r1 t1 where w: "write_base en k s = (r1, t1)" by (cases "write_base en k s")
  show ?thesis
  proof (cases r1)
    case (Inl e)
    with w show ?thesis by (simp add: try_pair_def)
  next
    case (Inr p)
    show ?thesis
    proof (cases "reproject_to_xyz en k")
      case (Some e)
      with w Inr assms show ?thesis
        by (simp add: try_pair_def reproject_step_def named_temporary_file_def Let_def)
    next
      case None
      with w Inr assms archive_step_Type3_raises [OF assms] show ?thesis
        by (simp add: try_pair_def reproject_step_def named_temporary_file_def Let_def)
    qed
  qed
qed

lemma failed_pair_leaves_temp:
  assumes c: "creates_temp en k" and f: "fst (try_pair en k s) \<noteq> Inr ()"
  shows "fresh (tmp_files s) \<in> set (tmp_files (convert_pair en k s)) \<and>
         fresh (tmp_files s) \<notin> set (tmp_files s)"
proof -
  let ?p = "fresh (tmp_files s)"
  obtain r1 t1 where w: "write_base en k s = (r1, t1)" by (cases "write_base en k s")
  from write_base_tmp [OF w] c have t1: "tmp_files t1 = ?p # tmp_files s" by simp
  have "?p \<in> set (tmp_files (convert_pair en k s))"
  proof (cases r1)
    case (Inl e)
    with w t1 show ?thesis by (simp add: convert_pair_def try_pair_def)
  next
    case (Inr p)
    with write_base_tmp [OF w] have p: "p = ?p" by simp
    show ?thesis
    proof (cases "output_type en")
      case Type2
      from t1 p have "p \<in> set (tmp_files t1)" by simp
      note a = archive_step_Type2 [OF Type2 this, of k]
      have tp: "try_pair en k s = archive_step en k p None t1"
        using w Inr by (simp add: try_pair_Type2 [OF Type2])
      show ?thesis
      proof (cases "writestr en k")
        case None
        with a tp f show ?thesis by simp
      next
        case (Some e)
        with a tp t1 p show ?thesis by (simp add: convert_pair_def)
      qed
    next
      case Type3
      let ?q = "fresh (tmp_files t1)"
      have qp: "?q \<noteq> p" using fresh_notin [of "tmp_files t1"] t1 p by auto
      show ?thesis
      proof (cases "reproject_to_xyz en k")
        case (Some e)
        with w Inr Type3 t1 p show ?thesis
          by (simp add: convert_pair_def try_pair_def reproject_step_def
              named_temporary_file_def Let_def)
      next
        case None
        define t2 where "t2 = t1\<lparr>tmp_files := ?q # tmp_files t1\<rparr>"
        have tp: "try_pair en k s = archive_step en k ?q (Some ?q) t2"
          using w Inr Type3 None
          by (simp add: try_pair_def reproject_step_def named_temporary_file_def Let_def t2_def)
        obtain r3 t3 where a: "archive_step en k ?q (Some ?q) t2 = (r3, t3)"
          by (cases "archive_step en k ?q (Some ?q) t2")
        have "p \<in> set (tmp_files t2)" using t1 p by (simp add: t2_def)
        from archive_step_keeps_other [OF a this] qp have "p \<in> set (tmp_files t3)" by auto
        with tp a p show ?thesis by (cases r3) (simp_all add: convert_pair_def)
      qed
    qed
  qed
  then show ?thesis by (simp add: fresh_notin)
qed

subsection \<open>Evaluating the loop on a session\<close>

lemmas loop_eval =
  session_env_def eager_parse_def cache_bounds_def new_session_def convert_to_geotiff_def
  convert_pair_def try_pair_def write_base_def reproject_step_def archive_step_def
  archive_name_def os_remove_def named_temporary_file_def fresh_def from_bounds_def
  translation_def scale_def creates_temp_def steps_ok_def parsed_def

lemma example_parses:
  "parse_map float_decimal corners_text = Some (-10, 5, 30, 20)"
  "parse_map float_decimal commented_text = Some (-10, 5, 30, 20)"
  "parse_map float_decimal partial_text = None"
  by (simp_all add: corners_text_def commented_text_def partial_text_def parser_eval)

subsection \<open>The claims about the loop\<close>

text \<open>
  C3 does not hold of the code, which removes its temporary files on the success path
  only (lines 174 to 176) and misses one of them there. Evaluated at three pairs of key
  \<open>a\<close>, from no temporary file on disk: with Type 2 and a raster write that raises, the
  pair's file is left; with Type 3 and a reprojection that raises, both files are left;
  with Type 3 and no library failure, the second \<open>os.remove\<close> raises FileNotFoundError
  after the pair was archived, and the base raster is left. The files are still there at
  the end of the batch.
\<close>

theorem temp_files_left_on_disk:
  "tmp_files new_session = [] \<and>
   tmp_files (convert_pair full_disk_env ''a'' new_session) = [1] \<and>
   failed (convert_pair full_disk_env ''a'' new_session) =
     [(''a'', LibraryError ''No space left on device'')] \<and>
   tmp_files (convert_pair reprojection_fails_env ''a'' new_session) = [2, 1] \<and>
   failed (convert_pair reprojection_fails_env ''a'' new_session) =
     [(''a'', LibraryError ''reprojection failed'')] \<and>
   tmp_files (convert_pair geocentric_env ''a'' new_session) = [1] \<and>
   failed (convert_pair geocentric_env ''a'' new_session) = [(''a'', FileNotFoundError 2)] \<and>
   map fst (zip_entries (convert_pair geocentric_env ''a'' new_session)) = [''a_geotiff.tif''] \<and>
   tmp_files (convert_to_geotiff full_disk_env new_session) = [1] \<and>
   tmp_files (convert_to_geotiff geocentric_env new_session) = [2, 1]"
  by (simp add: full_disk_env_def reprojection_fails_env_def geocentric_env_def loop_eval
      example_parses)

text \<open>
  With the Type 2 output, a pair whose step succeeds leaves the temporary files on disk
  as they were before it, so its own file has been deleted; a pair that got as far as
  its temporary file and whose raster write or \<open>writestr\<close> raises leaves that file on
  disk.
\<close>

lemma temp_file_cleanup_Type2:
  assumes "output_type en = Type2"
  shows "(fst (try_pair en k s) = Inr () \<longrightarrow> tmp_files (convert_pair en k s) = tmp_files s) \<and>
         (creates_temp en k \<and> (raster_write en k \<noteq> None \<or> writestr en k \<noteq> None) \<longrightarrow>
            tmp_files (convert_pair en k s) = fresh (tmp_files s) # tmp_files s \<and>
            fresh (tmp_files s) \<notin> set (tmp_files s))"
  using convert_pair_Type2 [OF assms, of k s] by (auto simp: steps_ok_def fresh_notin)

text \<open>
  C4, as stated, fails: the loop runs over all matched keys; a key whose calibration file
  did not parse is visited, raises KeyError at the lookup of its bounds and is recorded
  in the failure list of the summary.
\<close>

theorem unparsed_key_attempted_counterexample:
  "''b'' \<in> set (matched_keys partial_env) \<and>
   parsed float_decimal [''a'' \<mapsto> corners_text, ''b'' \<mapsto> partial_text] ''b'' = None \<and>
   bounds_cache partial_env = [(''a'', (-10, 5, 30, 20))] \<and>
   failed (convert_to_geotiff partial_env new_session) = [(''b'', KeyError ''b'')] \<and>
   success (convert_to_geotiff partial_env new_session) = [''a'']"
  by (simp add: partial_env_def loop_eval example_parses)

text \<open>
  C4, amended: in a batch run (the bounds cache, filled by the eager parse, is not empty)
  a matched key whose calibration file did not parse is still visited by the loop and
  recorded as failed, with the KeyError of the bounds lookup when its image decodes; it
  is never recorded as a success and nothing is archived under its name. A key whose calibration file parsed has its bounds in the cache and gets an
  outcome, which with the Type 2 output is a success when none of its steps raises.
\<close>

theorem unparsed_key_fails_at_lookup:
  assumes cache: "bounds_cache en = eager_parse flt map_files (matched_keys en)"
    and nonempty: "bounds_cache en \<noteq> []"
    and k: "k \<in> set (matched_keys en)"
  shows "(parsed flt map_files k = None \<longrightarrow>
            k \<in> fst ` set (failed (convert_to_geotiff en s)) \<and>
            (\<forall>hw. image_shape en k = Inr hw \<longrightarrow>
               (k, KeyError k) \<in> set (failed (convert_to_geotiff en s))) \<and>
            k \<notin> set (success (convert_to_geotiff en s)) \<and>
            archive_name k \<notin> fst ` set (zip_entries (convert_to_geotiff en s))) \<and>
         (\<forall>b. parsed flt map_files k = Some b \<longrightarrow>
            map_of (bounds_cache en) k = Some b \<and>
            (k \<in> set (success (convert_to_geotiff en s)) \<or>
             k \<in> fst ` set (failed (convert_to_geotiff en s))) \<and>
            (output_type en = Type2 \<and> steps_ok en k \<longrightarrow>
               k \<in> set (success (convert_to_geotiff en s))))"
proof -
  define s0 where
    "s0 = s\<lparr>zip_entries := [], success := [], failed := [], total_bytes := 0\<rparr>"
  have run: "convert_to_geotiff en s = conversion_loop en (matched_keys en) s0"
    using nonempty by (simp add: convert_to_geotiff_def s0_def)
  have lookup: "map_of (bounds_cache en) k = parsed flt map_files k"
    using k by (simp add: cache eager_parse_lookup)
  note outcome = conversion_loop_outcome [OF k, of en s0]
  have first: "k \<in> fst ` set (failed (convert_to_geotiff en s)) \<and>
      (\<forall>hw. image_shape en k = Inr hw \<longrightarrow>
         (k, KeyError k) \<in> set (failed (convert_to_geotiff en s))) \<and>
      k \<notin> set (success (convert_to_geotiff en s)) \<and>
      archive_name k \<notin> fst ` set (zip_entries (convert_to_geotiff en s))"
    if none: "parsed flt map_files k = None"
  proof -
    from none lookup have un: "map_of (bounds_cache en) k = None" by simp
    have no_success: "k \<notin> set (success (conversion_loop en (matched_keys en) s0))"
      using conversion_loop_success_cached [of en "matched_keys en" s0] un
      by (auto simp: s0_def)
    have "archive_name k \<notin> fst ` set (zip_entries (conversion_loop en (matched_keys en) s0))"
    proof
      assume "archive_name k \<in> fst ` set (zip_entries (conversion_loop en (matched_keys en) s0))"
      with conversion_loop_names_cached [of en "matched_keys en" s0]
      have "archive_name k \<in>
          archive_name ` {k \<in> set (matched_keys en). map_of (bounds_cache en) k \<noteq> None}"
        by (auto simp: s0_def)
      then obtain k' where "archive_name k = archive_name k'"
        and "map_of (bounds_cache en) k' \<noteq> None"
        by blast
      with un show False by (auto dest: archive_name_inj)
    qed
    with no_success outcome conversion_loop_KeyError [OF k un, of _ s0]
    show ?thesis by (simp add: run)
  qed
  have second: "map_of (bounds_cache en) k = Some b \<and>
      (k \<in> set (success (convert_to_geotiff en s)) \<or>
       k \<in> fst ` set (failed (convert_to_geotiff en s))) \<and>
      (output_type en = Type2 \<and> steps_ok en k \<longrightarrow>
         k \<in> set (success (convert_to_geotiff en s)))"
    if some: "parsed flt map_files k = Some b" for b
    using some lookup outcome conversion_loop_success_Type2 [OF _ _ k, of en s0]
    by (simp add: run)
  from first second show ?thesis by blast
qed

text \<open>C4, amended, at a session where the file of \<open>a\<close> parses and the file of \<open>b\<close> does not.\<close>

theorem unparsed_key_fails_at_lookup_witness:
  "bounds_cache partial_env =
     eager_parse float_decimal [''a'' \<mapsto> corners_text, ''b'' \<mapsto> partial_text]
       (matched_keys partial_env) \<and>
   bounds_cache partial_env \<noteq> [] \<and>
   ''b'' \<in> set (matched_keys partial_env) \<and> ''a'' \<in> set (matched_keys partial_env) \<and>
   parsed float_decimal [''a'' \<mapsto> corners_text, ''b'' \<mapsto> partial_text] ''b'' = None \<and>
   parsed float_decimal [''a'' \<mapsto> corners_text, ''b'' \<mapsto> partial_text] ''a'' =
     Some (-10, 5, 30, 20) \<and>
   output_type partial_env = Type2 \<and> steps_ok partial_env ''a'' \<and>
   image_shape partial_env ''b'' = Inr (50, 100) \<and>
   (''b'', KeyError ''b'') \<in> set (failed (convert_to_geotiff partial_env new_session)) \<and>
   ''b'' \<notin> set (success (convert_to_geotiff partial_env new_session)) \<and>
   archive_name ''b'' \<notin> fst ` set (zip_entries (convert_to_geotiff partial_env new_session)) \<and>
   map_of (bounds_cache partial_env) ''a'' = Some (-10, 5, 30, 20) \<and>
   ''a'' \<in> set (success (convert_to_geotiff partial_env new_session))"
proof -
  let ?mf = "[''a'' \<mapsto> corners_text, ''b'' \<mapsto> partial_text]"
  have h1: "bounds_cache partial_env =
     eager_parse float_decimal ?mf (matched_keys partial_env)"
    by (simp add: partial_env_def session_env_def)
  have h2: "bounds_cache partial_env \<noteq> []"
    by (simp add: partial_env_def loop_eval example_parses)
  have hb: "''b'' \<in> set (matched_keys partial_env)"
    and ha: "''a'' \<in> set (matched_keys partial_env)"
    by (simp_all add: partial_env_def session_env_def)
  have pb: "parsed float_decimal ?mf ''b'' = None"
    and pa: "parsed float_decimal ?mf ''a'' = Some (-10, 5, 30, 20)"
    by (simp_all add: parsed_def example_parses)
  have ok: "output_type partial_env = Type2 \<and> steps_ok partial_env ''a''"
    by (simp add: partial_env_def loop_eval example_parses)
  have im: "image_shape partial_env ''b'' = Inr (50, 100)"
    by (simp add: partial_env_def session_env_def)
  from h1 h2 ha hb pa pb ok im
    unparsed_key_fails_at_lookup [OF h1 h2 hb, of new_session]
    unparsed_key_fails_at_lookup [OF h1 h2 ha, of new_session]
  show ?thesis by simp
qed

text \<open>
  C8: when the \<open>try\<close> block of a key raises \<open>e\<close>, the iteration appends the key with \<open>e\<close> to
  the failure list, the loop goes on with the keys after it from the state the failure
  left, the entry is still in the list at the end, and every key of the batch has
  exactly one entry in the success list or the failure list.
\<close>

theorem failure_recorded_batch_continues:
  assumes "fst (try_pair en k (conversion_loop en ks1 s)) = Inl e"
  shows "failed (convert_pair en k (conversion_loop en ks1 s)) =
           failed (conversion_loop en ks1 s) @ [(k, e)] \<and>
         conversion_loop en (ks1 @ k # ks2) s =
           conversion_loop en ks2 (convert_pair en k (conversion_loop en ks1 s)) \<and>
         (k, e) \<in> set (failed (conversion_loop en (ks1 @ k # ks2) s)) \<and>
         mset (success (conversion_loop en (ks1 @ k # ks2) s) @
               map fst (failed (conversion_loop en (ks1 @ k # ks2) s))) =
           mset (success s @ map fst (failed s)) + mset (ks1 @ k # ks2)"
proof -
  define s1 where "s1 = conversion_loop en ks1 s"
  from assms convert_pair_summary [of en k s1]
  have rec: "failed (convert_pair en k s1) = failed s1 @ [(k, e)]"
    by (simp add: s1_def)
  have cont: "conversion_loop en (ks1 @ k # ks2) s = conversion_loop en ks2 (convert_pair en k s1)"
    by (simp add: conversion_loop_append s1_def)
  from rec have "(k, e) \<in> set (failed (convert_pair en k s1))" by simp
  with conversion_loop_failed_mono [of "convert_pair en k s1" en ks2]
  have mem: "(k, e) \<in> set (failed (conversion_loop en (ks1 @ k # ks2) s))"
    unfolding cont by blast
  show ?thesis
    using rec cont mem conversion_loop_mset [of en "ks1 @ k # ks2" s]
    unfolding s1_def by blast
qed

text \<open>C8 at a batch whose first pair fails and whose second pair succeeds.\<close>

theorem failure_recorded_batch_continues_witness:
  "fst (try_pair full_disk_env ''a'' (conversion_loop full_disk_env [] new_session)) =
     Inl (LibraryError ''No space left on device'') \<and>
   (''a'', LibraryError ''No space left on device'')
     \<in> set (failed (conversion_loop full_disk_env ([] @ ''a'' # [''b'']) new_session)) \<and>
   success (conversion_loop full_disk_env ([] @ ''a'' # [''b'']) new_session) = [''b'']"
proof -
  have h: "fst (try_pair full_disk_env ''a'' (conversion_loop full_disk_env [] new_session)) =
     Inl (LibraryError ''No space left on device'')"
    by (simp add: full_disk_env_def loop_eval example_parses)
  have "success (conversion_loop full_disk_env ([] @ ''a'' # [''b'']) new_session) = [''b'']"
    by (simp add: full_disk_env_def loop_eval example_parses)
  with h failure_recorded_batch_continues [OF h, of "[''b'']"] show ?thesis by simp
qed

end
